theory Spec2Isabelle
  imports Main "HOL-Library.AList" "HOL-Library.Sublist"
begin

section \<open>Paths (the part of pathlib the organizer uses)\<close>

text \<open>
  A path is the list of its components; the empty list is the directory the program
  starts from. File names and category names are single components, as the names
  that \<^verbatim>\<open>iterdir\<close> yields and the values of the format table are. Characters
  are bytes, and lower-casing is the ASCII one (\<^verbatim>\<open>str.lower\<close> restricted to
  ASCII names).
\<close>

type_synonym path = "string list"

definition path_name :: "path \<Rightarrow> string" where
  "path_name p = (if p = [] then [] else last p)"

definition path_parent :: "path \<Rightarrow> path" where
  "path_parent p = butlast p"

definition path_join :: "path \<Rightarrow> string \<Rightarrow> path" where
  "path_join d n = d @ [n]"

text \<open>\<^verbatim>\<open>str.rfind\<close>: the index of the last occurrence, \<open>None\<close> for Python's \<open>-1\<close>.\<close>

fun rfind :: "char \<Rightarrow> string \<Rightarrow> nat option" where
  "rfind c [] = None"
| "rfind c (x # xs) =
     (case rfind c xs of
        Some i \<Rightarrow> Some (Suc i)
      | None \<Rightarrow> if x = c then Some 0 else None)"

text \<open>
  \<^verbatim>\<open>PurePath.suffix\<close> and \<^verbatim>\<open>PurePath.stem\<close>:
  \<^verbatim>\<open>i = name.rfind('.'); if 0 < i < len(name) - 1: name[i:] else ''\<close>, and the stem
  is \<^verbatim>\<open>name[:i]\<close> under the same test, the whole name otherwise.
\<close>

definition name_suffix :: "string \<Rightarrow> string" where
  "name_suffix n =
     (case rfind (CHR ''.'') n of
        Some i \<Rightarrow> if 0 < i \<and> Suc i < length n then drop i n else []
      | None \<Rightarrow> [])"

definition name_stem :: "string \<Rightarrow> string" where
  "name_stem n =
     (case rfind (CHR ''.'') n of
        Some i \<Rightarrow> if 0 < i \<and> Suc i < length n then take i n else n
      | None \<Rightarrow> n)"

definition path_suffix :: "path \<Rightarrow> string" where
  "path_suffix p = name_suffix (path_name p)"

definition path_stem :: "path \<Rightarrow> string" where
  "path_stem p = name_stem (path_name p)"

definition ascii_uppercase :: string where
  "ascii_uppercase = ''ABCDEFGHIJKLMNOPQRSTUVWXYZ''"

definition ascii_lowercase :: string where
  "ascii_lowercase = ''abcdefghijklmnopqrstuvwxyz''"

definition char_lower :: "char \<Rightarrow> char" where
  "char_lower c = (case map_of (zip ascii_uppercase ascii_lowercase) c of Some l \<Rightarrow> l | None \<Rightarrow> c)"


definition lower :: "string \<Rightarrow> string" where
  "lower s = map char_lower s"


section \<open>utils.py: the classifier and the ignore filter\<close>

text \<open>
  \<^verbatim>\<open>get_file_category(file_path, format_mapping, default)\<close>:
  \<^verbatim>\<open>extension = file_path.suffix.lower(); return format_mapping.get(extension, default)\<close>.
\<close>

definition get_file_category :: "path \<Rightarrow> (string \<rightharpoonup> string) \<Rightarrow> string \<Rightarrow> string" where
  "get_file_category file_path format_mapping dflt =
     (let extension = lower (path_suffix file_path)
      in case format_mapping extension of Some c \<Rightarrow> c | None \<Rightarrow> dflt)"

definition is_hidden_file :: "path \<Rightarrow> bool" where
  "is_hidden_file file_path = (case path_name file_path of [] \<Rightarrow> False | c # _ \<Rightarrow> c = CHR ''.'')"

definition system_files :: "string list" where
  "system_files = [''.DS_Store'', ''Thumbs.db'', ''desktop.ini'', ''.localized'']"

definition is_system_file :: "path \<Rightarrow> bool" where
  "is_system_file file_path = (path_name file_path \<in> set system_files)"

definition should_ignore_file :: "path \<Rightarrow> bool" where
  "should_ignore_file file_path = (is_hidden_file file_path \<or> is_system_file file_path)"

section \<open>The file system the program runs against\<close>

text \<open>
  The organizer reaches the file system only through pathlib and \<^verbatim>\<open>shutil.move\<close>.
  The state is an association list from paths to nodes (its order is the order in
  which a directory lists its entries) and the set of paths on which the operating
  system refuses a modifying call (rename, unlink, mkdir) with
  \<^verbatim>\<open>PermissionError\<close>. A dangling symbolic link is listed by its directory, but
  \<^verbatim>\<open>exists\<close>, \<^verbatim>\<open>is_file\<close> and \<^verbatim>\<open>is_dir\<close> are false on it and
  \<^verbatim>\<open>stat\<close> raises. A call that fails leaves the file system as it was.
\<close>

datatype node = File string | Dir | Dangling

datatype exn =
    FileNotFoundError
  | FileExistsError
  | NotADirectoryError
  | IsADirectoryError
  | PermissionError
  | ShutilError
  | ValueError

record filesystem =
  nodes :: "(path \<times> node) list"
  denied :: "path set"

definition lookup :: "filesystem \<Rightarrow> path \<Rightarrow> node option" where
  "lookup fs p = map_of (nodes fs) p"

definition path_exists :: "filesystem \<Rightarrow> path \<Rightarrow> bool" where
  "path_exists fs p =
     (case lookup fs p of Some (File _) \<Rightarrow> True | Some Dir \<Rightarrow> True | _ \<Rightarrow> False)"

definition path_is_dir :: "filesystem \<Rightarrow> path \<Rightarrow> bool" where
  "path_is_dir fs p = (case lookup fs p of Some Dir \<Rightarrow> True | _ \<Rightarrow> False)"

definition path_is_file :: "filesystem \<Rightarrow> path \<Rightarrow> bool" where
  "path_is_file fs p = (case lookup fs p of Some (File _) \<Rightarrow> True | _ \<Rightarrow> False)"

text \<open>
  \<^verbatim>\<open>item.stat().st_size\<close>: the length of a file's contents. The program never
  asks for the size of a directory (the scan skips directories first).
\<close>

definition path_stat_size :: "filesystem \<Rightarrow> path \<Rightarrow> exn + nat" where
  "path_stat_size fs p =
     (case lookup fs p of
        Some (File c) \<Rightarrow> Inr (length c)
      | Some Dir \<Rightarrow> Inr 0
      | _ \<Rightarrow> Inl FileNotFoundError)"

definition path_iterdir :: "filesystem \<Rightarrow> path \<Rightarrow> exn + path list" where
  "path_iterdir fs d =
     (case lookup fs d of
        Some Dir \<Rightarrow> Inr (remdups (filter (\<lambda>p. p \<noteq> [] \<and> path_parent p = d) (map fst (nodes fs))))
      | Some (File c) \<Rightarrow> Inl NotADirectoryError
      | Some Dangling \<Rightarrow> Inl FileNotFoundError
      | None \<Rightarrow> Inl FileNotFoundError)"

text \<open>\<^verbatim>\<open>Path.mkdir(exist_ok=True)\<close>, without \<^verbatim>\<open>parents=True\<close>.\<close>

definition path_mkdir_exist_ok :: "filesystem \<Rightarrow> path \<Rightarrow> exn + filesystem" where
  "path_mkdir_exist_ok fs p =
     (case lookup fs p of
        Some Dir \<Rightarrow> Inr fs
      | Some _ \<Rightarrow> Inl FileExistsError
      | None \<Rightarrow>
          (case lookup fs (path_parent p) of
             Some Dir \<Rightarrow>
               if p \<in> denied fs then Inl PermissionError
               else Inr (fs\<lparr>nodes := AList.update p Dir (nodes fs)\<rparr>)
           | Some _ \<Rightarrow> Inl NotADirectoryError
           | None \<Rightarrow> Inl FileNotFoundError))"

definition path_unlink :: "filesystem \<Rightarrow> path \<Rightarrow> exn + filesystem" where
  "path_unlink fs p =
     (case lookup fs p of
        None \<Rightarrow> Inl FileNotFoundError
      | Some Dir \<Rightarrow> Inl IsADirectoryError
      | Some _ \<Rightarrow>
          if p \<in> denied fs then Inl PermissionError
          else Inr (fs\<lparr>nodes := AList.delete p (nodes fs)\<rparr>))"

text \<open>
  \<^verbatim>\<open>os.rename\<close> of a directory carries everything below it; of a file or a link it
  replaces a file or link at the target.
\<close>

definition rename_tree :: "(path \<times> node) list \<Rightarrow> path \<Rightarrow> path \<Rightarrow> (path \<times> node) list" where
  "rename_tree al src dst =
     map (\<lambda>(p, n). (if prefix src p then dst @ drop (length src) p else p, n)) al"

definition os_rename :: "filesystem \<Rightarrow> path \<Rightarrow> path \<Rightarrow> exn + filesystem" where
  "os_rename fs src dst =
     (case lookup fs src of
        None \<Rightarrow> Inl FileNotFoundError
      | Some Dir \<Rightarrow>
          (case lookup fs dst of
             None \<Rightarrow> Inr (fs\<lparr>nodes := rename_tree (nodes fs) src dst\<rparr>)
           | Some _ \<Rightarrow> Inl NotADirectoryError)
      | Some n \<Rightarrow>
          (case lookup fs dst of
             Some Dir \<Rightarrow> Inl IsADirectoryError
           | _ \<Rightarrow> Inr (fs\<lparr>nodes := AList.update dst n (AList.delete src (nodes fs))\<rparr>)))"

text \<open>
  \<^verbatim>\<open>shutil.move(src, dst)\<close>: into \<open>dst\<close> when \<open>dst\<close> is a directory (refused when the
  name is taken there), never a directory into itself, and otherwise a rename.
\<close>

definition shutil_move :: "filesystem \<Rightarrow> path \<Rightarrow> path \<Rightarrow> exn + filesystem" where
  "shutil_move fs src dst =
     (let real_dst = (if path_is_dir fs dst then path_join dst (path_name src) else dst)
      in if path_is_dir fs dst \<and> path_exists fs real_dst then Inl ShutilError
         else if path_is_dir fs src \<and> prefix src real_dst then Inl ShutilError
         else if src \<in> denied fs \<or> real_dst \<in> denied fs then Inl PermissionError
         else if \<not> path_is_dir fs (path_parent real_dst) then Inl FileNotFoundError
         else os_rename fs src real_dst)"

section \<open>utils.py: conflict resolution, directory creation, deletion\<close>

text \<open>\<^verbatim>\<open>str(counter)\<close> inside the f-string: the decimal digits.\<close>

definition digit_char :: "nat \<Rightarrow> char" where
  "digit_char d = ''0123456789'' ! d"

fun str_nat :: "nat \<Rightarrow> string" where
  "str_nat n = (if n < 10 then [digit_char n] else str_nat (n div 10) @ [digit_char (n mod 10)])"

declare str_nat.simps [simp del]

text \<open>\<^verbatim>\<open>parent / f"{stem}_{counter}{suffix}"\<close>.\<close>

definition new_path :: "path \<Rightarrow> nat \<Rightarrow> path" where
  "new_path file_path counter =
     path_join (path_parent file_path)
       (path_stem file_path @ ''_'' @ str_nat counter @ path_suffix file_path)"

text \<open>
  The \<^verbatim>\<open>while True\<close> loop of \<^verbatim>\<open>get_unique_filename\<close>, entered with
  \<open>counter = 1\<close>: probe, increment, and raise once the counter has passed 9999.
\<close>

function unique_loop :: "filesystem \<Rightarrow> path \<Rightarrow> nat \<Rightarrow> exn + path" where
  "unique_loop fs file_path counter =
     (if \<not> path_exists fs (new_path file_path counter) then Inr (new_path file_path counter)
      else if counter + 1 > 9999 then Inl ValueError
      else unique_loop fs file_path (counter + 1))"
  by pat_completeness auto
termination
  by (relation "measure (\<lambda>(fs, file_path, counter). 10000 - counter)") auto

declare unique_loop.simps [simp del]

definition get_unique_filename :: "filesystem \<Rightarrow> path \<Rightarrow> exn + path" where
  "get_unique_filename fs file_path =
     (if \<not> path_exists fs file_path then Inr file_path else unique_loop fs file_path 1)"

definition create_destination_dir :: "filesystem \<Rightarrow> path \<Rightarrow> string \<Rightarrow> exn + (path \<times> filesystem)" where
  "create_destination_dir fs base_path category =
     (let dest_dir = path_join base_path category
      in case path_mkdir_exist_ok fs dest_dir of
           Inl e \<Rightarrow> Inl e
         | Inr fs' \<Rightarrow> Inr (dest_dir, fs'))"

text \<open>\<^verbatim>\<open>safe_delete_file\<close> turns every exception of its body into \<open>False\<close>.\<close>

definition safe_delete_file :: "filesystem \<Rightarrow> path \<Rightarrow> bool \<times> filesystem" where
  "safe_delete_file fs file_path =
     (if path_exists fs file_path \<and> path_is_file fs file_path
      then (case path_unlink fs file_path of
              Inl e \<Rightarrow> (False, fs)
            | Inr fs' \<Rightarrow> (True, fs'))
      else (False, fs))"

section \<open>logger.py and the organizer's state\<close>

text \<open>
  The six counters of \<^verbatim>\<open>FileOrganizer.stats\<close>, and the log as the list of events
  written so far, oldest first. Each logging method appends one event; none of them
  raises.
\<close>

record stats =
  total :: nat
  moved :: nat
  renamed :: nat
  deleted :: nat
  skipped :: nat
  errors :: nat

datatype event =
    MOVED path path string
  | RENAMED path path string
  | DELETED path string
  | SKIPPED path string
  | ERROR path exn
  | SUMMARY stats

record organizer =
  stats :: stats
  logger :: "event list"

definition init_stats :: stats where
  "init_stats = \<lparr>total = 0, moved = 0, renamed = 0, deleted = 0, skipped = 0, errors = 0\<rparr>"

definition init_organizer :: organizer where
  "init_organizer = \<lparr>stats = init_stats, logger = []\<rparr>"

definition log_move :: "organizer \<Rightarrow> path \<Rightarrow> path \<Rightarrow> string \<Rightarrow> organizer" where
  "log_move st source destination category = st\<lparr>logger := logger st @ [MOVED source destination category]\<rparr>"

definition log_rename :: "organizer \<Rightarrow> path \<Rightarrow> path \<Rightarrow> string \<Rightarrow> organizer" where
  "log_rename st original renamed_to reason = st\<lparr>logger := logger st @ [RENAMED original renamed_to reason]\<rparr>"

definition log_delete :: "organizer \<Rightarrow> path \<Rightarrow> string \<Rightarrow> organizer" where
  "log_delete st file_path reason = st\<lparr>logger := logger st @ [DELETED file_path reason]\<rparr>"

definition log_skip :: "organizer \<Rightarrow> path \<Rightarrow> string \<Rightarrow> organizer" where
  "log_skip st file_path reason = st\<lparr>logger := logger st @ [SKIPPED file_path reason]\<rparr>"

definition log_error :: "organizer \<Rightarrow> path \<Rightarrow> exn \<Rightarrow> organizer" where
  "log_error st file_path e = st\<lparr>logger := logger st @ [ERROR file_path e]\<rparr>"

definition log_summary :: "organizer \<Rightarrow> organizer" where
  "log_summary st = st\<lparr>logger := logger st @ [SUMMARY (stats st)]\<rparr>"

definition inc_moved :: "organizer \<Rightarrow> organizer" where
  "inc_moved st = st\<lparr>stats := (stats st)\<lparr>moved := moved (stats st) + 1\<rparr>\<rparr>"

definition inc_renamed :: "organizer \<Rightarrow> organizer" where
  "inc_renamed st = st\<lparr>stats := (stats st)\<lparr>renamed := renamed (stats st) + 1\<rparr>\<rparr>"

definition inc_deleted :: "organizer \<Rightarrow> organizer" where
  "inc_deleted st = st\<lparr>stats := (stats st)\<lparr>deleted := deleted (stats st) + 1\<rparr>\<rparr>"

definition inc_skipped :: "organizer \<Rightarrow> organizer" where
  "inc_skipped st = st\<lparr>stats := (stats st)\<lparr>skipped := skipped (stats st) + 1\<rparr>\<rparr>"

definition inc_errors :: "organizer \<Rightarrow> organizer" where
  "inc_errors st = st\<lparr>stats := (stats st)\<lparr>errors := errors (stats st) + 1\<rparr>\<rparr>"

definition set_total :: "organizer \<Rightarrow> nat \<Rightarrow> organizer" where
  "set_total st n = st\<lparr>stats := (stats st)\<lparr>total := n\<rparr>\<rparr>"

section \<open>organizer.py\<close>

text \<open>
  \<^verbatim>\<open>OrganizerConfig\<close>, and the two constants of the module \<^verbatim>\<open>file_formats\<close>,
  whose source is not part of the repository's files: they are parameters here.
\<close>

record organizer_config =
  source_dir :: path
  destination_base :: path
  log_dir :: path
  FILE_FORMAT_FOLDERS :: "string \<rightharpoonup> string"
  DEFAULT_CATEGORY :: string

record file_info =
  path :: path
  category :: string
  size_bytes :: nat

definition name :: "file_info \<Rightarrow> string" where
  "name file_info = path_name (path file_info)"

text \<open>
  A method returns \<open>Inl e\<close> when the exception \<open>e\<close> leaves it, and \<open>Inr\<close> of its result,
  the organizer and the file system when it returns.
\<close>

text \<open>
  The loop of \<^verbatim>\<open>scan_files\<close> over the entries that \<^verbatim>\<open>iterdir\<close> yielded. Only the
  category and the size are computed inside the \<^verbatim>\<open>try\<close>.
\<close>

fun scan_items :: "organizer_config \<Rightarrow> filesystem \<Rightarrow> path list \<Rightarrow> organizer \<Rightarrow> file_info list
    \<Rightarrow> file_info list \<times> organizer" where
  "scan_items cfg fs [] st files = (files, st)"
| "scan_items cfg fs (item # items) st files =
     (if path_is_dir fs item then scan_items cfg fs items st files
      else if should_ignore_file item then scan_items cfg fs items st files
      else
        (let cat = get_file_category item (FILE_FORMAT_FOLDERS cfg) (DEFAULT_CATEGORY cfg)
         in case path_stat_size fs item of
              Inr sz \<Rightarrow>
                scan_items cfg fs items st
                  (files @ [\<lparr>path = item, category = cat, size_bytes = sz\<rparr>])
            | Inl e \<Rightarrow> scan_items cfg fs items (inc_errors (log_error st item e)) files))"

definition scan_files :: "organizer_config \<Rightarrow> organizer \<Rightarrow> filesystem
    \<Rightarrow> exn + (file_info list \<times> organizer)" where
  "scan_files cfg st fs =
     (case path_iterdir fs (source_dir cfg) of
        Inl e \<Rightarrow> Inl e
      | Inr items \<Rightarrow> Inr (scan_items cfg fs items st []))"

text \<open>
  The block \<^verbatim>\<open>if dest_path.exists(): ...\<close> of \<^verbatim>\<open>move_file\<close>: the path to move to
  and the organizer after the RENAMED event, or the exception of the resolver.
\<close>

definition handle_name_conflict :: "organizer \<Rightarrow> filesystem \<Rightarrow> path \<Rightarrow> exn + (path \<times> organizer)" where
  "handle_name_conflict st fs dest_path =
     (if path_exists fs dest_path
      then (case get_unique_filename fs dest_path of
              Inl e \<Rightarrow> Inl e
            | Inr unique \<Rightarrow>
                Inr (unique, inc_renamed (log_rename st dest_path unique ''name conflict'')))
      else Inr (dest_path, st))"

text \<open>
  The \<^verbatim>\<open>try\<close> block of \<^verbatim>\<open>move_file\<close>. An exception comes with the organizer and
  the file system as they were when it was raised.
\<close>

definition move_file_try :: "organizer_config \<Rightarrow> organizer \<Rightarrow> filesystem \<Rightarrow> file_info
    \<Rightarrow> (exn \<times> organizer \<times> filesystem) + (path \<times> organizer \<times> filesystem)" where
  "move_file_try cfg st fs file_info =
     (case create_destination_dir fs (destination_base cfg) (category file_info) of
        Inl e \<Rightarrow> Inl (e, st, fs)
      | Inr (dest_dir, fs1) \<Rightarrow>
          (case handle_name_conflict st fs1 (path_join dest_dir (name file_info)) of
             Inl e \<Rightarrow> Inl (e, st, fs1)
           | Inr (dest_path, st1) \<Rightarrow>
               (case shutil_move fs1 (path file_info) dest_path of
                  Inl e \<Rightarrow> Inl (e, st1, fs1)
                | Inr fs2 \<Rightarrow>
                    Inr (dest_path,
                         inc_moved (log_move st1 (path file_info) dest_path (category file_info)),
                         fs2))))"

definition move_file :: "organizer_config \<Rightarrow> organizer \<Rightarrow> filesystem \<Rightarrow> file_info
    \<Rightarrow> exn + ((bool \<times> path option) \<times> organizer \<times> filesystem)" where
  "move_file cfg st fs file_info =
     (case move_file_try cfg st fs file_info of
        Inr (dest_path, st', fs') \<Rightarrow> Inr ((True, Some dest_path), st', fs')
      | Inl (e, st', fs') \<Rightarrow>
          Inr ((False, None), inc_errors (log_error st' (path file_info) e), fs'))"

definition delete_file :: "organizer \<Rightarrow> filesystem \<Rightarrow> file_info
    \<Rightarrow> exn + (bool \<times> organizer \<times> filesystem)" where
  "delete_file st fs file_info =
     (case safe_delete_file fs (path file_info) of
        (True, fs') \<Rightarrow>
          Inr (True, inc_deleted (log_delete st (path file_info) ''user request''), fs')
      | (False, fs') \<Rightarrow>
          Inr (False, inc_errors (log_error st (path file_info) FileNotFoundError), fs'))"

definition skip_file :: "organizer \<Rightarrow> file_info \<Rightarrow> string \<Rightarrow> exn + organizer" where
  "skip_file st file_info reason = Inr (inc_skipped (log_skip st (path file_info) reason))"

text \<open>
  \<^verbatim>\<open>for file_info in files: self.move_file(file_info)\<close>: an exception leaving
  \<^verbatim>\<open>move_file\<close> would end the loop.
\<close>

fun move_all :: "organizer_config \<Rightarrow> organizer \<Rightarrow> filesystem \<Rightarrow> file_info list
    \<Rightarrow> exn + (organizer \<times> filesystem)" where
  "move_all cfg st fs [] = Inr (st, fs)"
| "move_all cfg st fs (file_info # files) =
     (case move_file cfg st fs file_info of
        Inl e \<Rightarrow> Inl e
      | Inr (r, st', fs') \<Rightarrow> move_all cfg st' fs' files)"

definition organize_all :: "organizer_config \<Rightarrow> organizer \<Rightarrow> filesystem
    \<Rightarrow> exn + (stats \<times> organizer \<times> filesystem)" where
  "organize_all cfg st fs =
     (case scan_files cfg st fs of
        Inl e \<Rightarrow> Inl e
      | Inr (files, st1) \<Rightarrow>
          (case move_all cfg (set_total st1 (length files)) fs files of
             Inl e \<Rightarrow> Inl e
           | Inr (st2, fs2) \<Rightarrow> Inr (stats (log_summary st2), log_summary st2, fs2)))"

section \<open>cli.py: the interactive run\<close>

text \<open>
  What the prompts of \<^verbatim>\<open>_process_file_interactive\<close> return: \<^verbatim>\<open>a\<close>, \<^verbatim>\<open>m\<close> with the
  category picked from the menu, \<^verbatim>\<open>d\<close> with the answer to the confirmation, and
  \<^verbatim>\<open>s\<close>. Printing to the console is left out.
\<close>

datatype user_choice = Auto | Manual string | Delete bool | Skip

definition process_file_interactive :: "organizer_config \<Rightarrow> organizer \<Rightarrow> filesystem \<Rightarrow> file_info
    \<Rightarrow> user_choice \<Rightarrow> exn + (organizer \<times> filesystem)" where
  "process_file_interactive cfg st fs file_info choice =
     (case choice of
        Auto \<Rightarrow>
          (case move_file cfg st fs file_info of
             Inl e \<Rightarrow> Inl e
           | Inr (r, st', fs') \<Rightarrow> Inr (st', fs'))
      | Manual selected_category \<Rightarrow>
          (case move_file cfg st fs (file_info\<lparr>category := selected_category\<rparr>) of
             Inl e \<Rightarrow> Inl e
           | Inr (r, st', fs') \<Rightarrow> Inr (st', fs'))
      | Delete confirmed \<Rightarrow>
          if confirmed
          then (case delete_file st fs file_info of
                  Inl e \<Rightarrow> Inl e
                | Inr (ok, st', fs') \<Rightarrow> Inr (st', fs'))
          else (case skip_file st file_info ''delete cancelled'' of
                  Inl e \<Rightarrow> Inl e
                | Inr st' \<Rightarrow> Inr (st', fs))
      | Skip \<Rightarrow>
          (case skip_file st file_info ''user choice'' of
             Inl e \<Rightarrow> Inl e
           | Inr st' \<Rightarrow> Inr (st', fs)))"

fun interactive_loop :: "organizer_config \<Rightarrow> organizer \<Rightarrow> filesystem
    \<Rightarrow> (file_info \<times> user_choice) list \<Rightarrow> exn + (organizer \<times> filesystem)" where
  "interactive_loop cfg st fs [] = Inr (st, fs)"
| "interactive_loop cfg st fs ((file_info, choice) # rest) =
     (case process_file_interactive cfg st fs file_info choice of
        Inl e \<Rightarrow> Inl e
      | Inr (st', fs') \<Rightarrow> interactive_loop cfg st' fs' rest)"

text \<open>
  \<^verbatim>\<open>run_interactive_mode\<close>; \<open>ask\<close> is the user's answer for the file shown. With
  nothing to organize it returns before the total is set.
\<close>

definition run_interactive_mode :: "organizer_config \<Rightarrow> organizer \<Rightarrow> filesystem
    \<Rightarrow> (file_info \<Rightarrow> user_choice) \<Rightarrow> exn + (organizer \<times> filesystem)" where
  "run_interactive_mode cfg st fs ask =
     (case scan_files cfg st fs of
        Inl e \<Rightarrow> Inl e
      | Inr (files, st1) \<Rightarrow>
          if files = [] then Inr (st1, fs)
          else interactive_loop cfg (set_total st1 (length files)) fs
                 (map (\<lambda>file_info. (file_info, ask file_info)) files))"

text \<open>
  \<^verbatim>\<open>run_automatic_mode\<close>, with the answer to its confirmation prompt. Unlike
  \<^verbatim>\<open>organize_all\<close> and \<^verbatim>\<open>run_interactive_mode\<close> it does not set the total.
\<close>

definition run_automatic_mode :: "organizer_config \<Rightarrow> organizer \<Rightarrow> filesystem \<Rightarrow> bool
    \<Rightarrow> exn + (organizer \<times> filesystem)" where
  "run_automatic_mode cfg st fs confirmed =
     (case scan_files cfg st fs of
        Inl e \<Rightarrow> Inl e
      | Inr (files, st1) \<Rightarrow>
          if files = [] then Inr (st1, fs)
          else if \<not> confirmed then Inr (st1, fs)
          else move_all cfg st1 fs files)"

section \<open>The counters as a dictionary object\<close>

text \<open>
  \<^verbatim>\<open>self.stats\<close> is a reference to a dictionary, and \<^verbatim>\<open>get_stats\<close> returns a
  reference too. Where the identity of the dictionary matters, the store is a list of
  dictionaries addressed by position; \<^verbatim>\<open>dict.copy()\<close> allocates a new one with the
  same items.
\<close>

type_synonym dict = "string \<rightharpoonup> int"

type_synonym store = "dict list"

record organizer_obj =
  stats_ref :: nat

definition stats_dict :: "stats \<Rightarrow> dict" where
  "stats_dict s =
     [''total'' \<mapsto> int (total s), ''moved'' \<mapsto> int (moved s), ''renamed'' \<mapsto> int (renamed s),
      ''deleted'' \<mapsto> int (deleted s), ''skipped'' \<mapsto> int (skipped s), ''errors'' \<mapsto> int (errors s)]"

definition dict_copy :: "store \<Rightarrow> nat \<Rightarrow> nat \<times> store" where
  "dict_copy h r = (length h, h @ [h ! r])"

definition get_stats :: "store \<Rightarrow> organizer_obj \<Rightarrow> nat \<times> store" where
  "get_stats h self = dict_copy h (stats_ref self)"

text \<open>Any change to the dictionary at a reference: setting, deleting, clearing.\<close>

definition mutate :: "store \<Rightarrow> nat \<Rightarrow> (dict \<Rightarrow> dict) \<Rightarrow> store" where
  "mutate h r f = h[r := f (h ! r)]"

section \<open>Notions the properties are stated with\<close>

text \<open>The \<^verbatim>\<open>dest_path\<close> that \<^verbatim>\<open>move_file\<close> computes before it looks for a conflict.\<close>

definition dest_path_of :: "organizer_config \<Rightarrow> file_info \<Rightarrow> path" where
  "dest_path_of cfg file_info =
     path_join (path_join (destination_base cfg) (category file_info)) (name file_info)"

text \<open>Every name that the loop of \<^verbatim>\<open>get_unique_filename\<close> can probe is taken.\<close>

definition all_candidates_exist :: "filesystem \<Rightarrow> path \<Rightarrow> bool" where
  "all_candidates_exist fs file_path =
     list_all (\<lambda>counter. path_exists fs (new_path file_path counter)) [1..<10000]"

text \<open>The files that have reached a terminal state, as the counters see them.\<close>

definition processed :: "stats \<Rightarrow> nat" where
  "processed s = moved s + deleted s + skipped s + errors s"

text \<open>
  The event that ends a file's processing names the file; RENAMED and the summary end
  nothing.
\<close>

fun terminal_subject :: "event \<Rightarrow> path option" where
  "terminal_subject (MOVED source destination cat) = Some source"
| "terminal_subject (DELETED file_path reason) = Some file_path"
| "terminal_subject (SKIPPED file_path reason) = Some file_path"
| "terminal_subject (ERROR file_path e) = Some file_path"
| "terminal_subject (RENAMED original renamed_to reason) = None"
| "terminal_subject (SUMMARY s) = None"

definition terminal_subjects :: "event list \<Rightarrow> path list" where
  "terminal_subjects evs = List.map_filter terminal_subject evs"

text \<open>
  The entries that \<^verbatim>\<open>scan_files\<close> takes up (neither a directory nor ignored), whether
  \<^verbatim>\<open>stat\<close> succeeds on one, the descriptor built for it, and, for a listing, the
  descriptors returned and the entries that fail.
\<close>

definition scan_candidate :: "filesystem \<Rightarrow> path \<Rightarrow> bool" where
  "scan_candidate fs item = (\<not> path_is_dir fs item \<and> \<not> should_ignore_file item)"

definition stat_ok :: "filesystem \<Rightarrow> path \<Rightarrow> bool" where
  "stat_ok fs item = (case path_stat_size fs item of Inr sz \<Rightarrow> True | Inl e \<Rightarrow> False)"

definition describe :: "organizer_config \<Rightarrow> filesystem \<Rightarrow> path \<Rightarrow> file_info" where
  "describe cfg fs item =
     \<lparr>path = item,
      category = get_file_category item (FILE_FORMAT_FOLDERS cfg) (DEFAULT_CATEGORY cfg),
      size_bytes = (case path_stat_size fs item of Inr sz \<Rightarrow> sz | Inl e \<Rightarrow> 0)\<rparr>"

definition scanned :: "organizer_config \<Rightarrow> filesystem \<Rightarrow> path list \<Rightarrow> file_info list" where
  "scanned cfg fs items =
     map (describe cfg fs) (filter (\<lambda>item. scan_candidate fs item \<and> stat_ok fs item) items)"

definition scan_failures :: "filesystem \<Rightarrow> path list \<Rightarrow> path list" where
  "scan_failures fs items = filter (\<lambda>item. scan_candidate fs item \<and> \<not> stat_ok fs item) items"

section \<open>Concrete inputs\<close>

definition small_fs :: filesystem where
  "small_fs =
     \<lparr>nodes = [([], Dir), ([''in''], Dir), ([''in'', ''a.txt''], File ''x'')], denied = {}\<rparr>"

definition a_txt :: file_info where
  "a_txt = \<lparr>path = [''in'', ''a.txt''], category = ''Others'', size_bytes = 1\<rparr>"

definition gone_txt :: file_info where
  "gone_txt = \<lparr>path = [''in'', ''gone.txt''], category = ''Others'', size_bytes = 1\<rparr>"

definition candidate_nodes :: "path \<Rightarrow> (path \<times> node) list" where
  "candidate_nodes file_path = map (\<lambda>counter. (new_path file_path counter, File [])) [1..<10000]"

definition crowded_fs :: filesystem where
  "crowded_fs =
     \<lparr>nodes = ([], Dir) # ([''d''], Dir) # ([''d'', ''f.txt''], File []) # candidate_nodes [''d'', ''f.txt''],
      denied = {}\<rparr>"

definition candidates_only_fs :: filesystem where
  "candidates_only_fs =
     \<lparr>nodes = ([], Dir) # ([''d''], Dir) # candidate_nodes [''d'', ''f.txt''], denied = {}\<rparr>"

definition two_taken_fs :: filesystem where
  "two_taken_fs =
     \<lparr>nodes = [([], Dir), ([''d''], Dir), ([''d'', ''f.txt''], File ''a''), ([''d'', ''f_1.txt''], File ''b'')],
      denied = {}\<rparr>"

definition cfg_io :: organizer_config where
  "cfg_io =
     \<lparr>source_dir = [''in''], destination_base = [''out''], log_dir = [''logs''],
      FILE_FORMAT_FOLDERS = [''.pdf'' \<mapsto> ''Documents'', ''.jpg'' \<mapsto> ''Images''],
      DEFAULT_CATEGORY = ''Others''\<rparr>"

definition report_pdf :: file_info where
  "report_pdf = \<lparr>path = [''in'', ''report.pdf''], category = ''Documents'', size_bytes = 3\<rparr>"

definition conflict_nodes :: "(path \<times> node) list" where
  "conflict_nodes =
     [([], Dir), ([''in''], Dir), ([''in'', ''report.pdf''], File ''new''),
      ([''out''], Dir), ([''out'', ''Documents''], Dir),
      ([''out'', ''Documents'', ''report.pdf''], File ''old'')]"

definition conflict_fs :: filesystem where
  "conflict_fs = \<lparr>nodes = conflict_nodes, denied = {}\<rparr>"

definition locked_fs :: filesystem where
  "locked_fs = \<lparr>nodes = conflict_nodes, denied = {[''in'', ''report.pdf'']}\<rparr>"



definition dangling_fs :: filesystem where
  "dangling_fs =
     \<lparr>nodes = [([], Dir), ([''in''], Dir), ([''in'', ''broken''], Dangling),
               ([''in'', ''a.txt''], File ''x''), ([''in'', ''.DS_Store''], File []),
               ([''in'', ''sub''], Dir), ([''out''], Dir)],
      denied = {}\<rparr>"


definition dangling_done :: organizer where
  "dangling_done =
     \<lparr>stats = \<lparr>total = 1, moved = 1, renamed = 0, deleted = 0, skipped = 0, errors = 1\<rparr>,
      logger = [ERROR [''in'', ''broken''] FileNotFoundError,
                MOVED [''in'', ''a.txt''] [''out'', ''Others'', ''a.txt''] ''Others'',
                SUMMARY \<lparr>total = 1, moved = 1, renamed = 0, deleted = 0, skipped = 0,
                          errors = 1\<rparr>]\<rparr>"

definition dangling_done_fs :: filesystem where
  "dangling_done_fs =
     \<lparr>nodes = [([], Dir), ([''in''], Dir), ([''in'', ''broken''], Dangling),
               ([''in'', ''.DS_Store''], File []), ([''in'', ''sub''], Dir),
               ([''out''], Dir), ([''out'', ''Others''], Dir),
               ([''out'', ''Others'', ''a.txt''], File ''x'')],
      denied = {}\<rparr>"


definition one_dict_store :: store where
  "one_dict_store = [stats_dict init_stats]"

definition organizer_at_0 :: organizer_obj where
  "organizer_at_0 = \<lparr>stats_ref = 0\<rparr>"


section \<open>The classifier\<close>













section \<open>Deleting\<close>

text \<open>
  C7. When the descriptor's path does not exist or is not a regular file,
  \<^verbatim>\<open>delete_file\<close> returns failure, adds one to \<open>errors\<close> and nothing to \<open>deleted\<close>,
  and logs an ERROR event. When the path is an existing regular file and the unlink
  succeeds, it returns success, logs a DELETED event, adds one to \<open>deleted\<close>, and the
  file is gone.
\<close>

theorem delete_file_result:
  "((\<not> path_exists fs (path f) \<or> \<not> path_is_file fs (path f)) \<longrightarrow>
      (\<exists>st'. delete_file st fs f = Inr (False, st', fs)
         \<and> errors (stats st') = errors (stats st) + 1
         \<and> deleted (stats st') = deleted (stats st)
         \<and> logger st' = logger st @ [ERROR (path f) FileNotFoundError]))
   \<and> ((path_exists fs (path f) \<and> path_is_file fs (path f) \<and> path_unlink fs (path f) = Inr fs') \<longrightarrow>
      (\<exists>st'. delete_file st fs f = Inr (True, st', fs')
         \<and> deleted (stats st') = deleted (stats st) + 1
         \<and> errors (stats st') = errors (stats st)
         \<and> logger st' = logger st @ [DELETED (path f) ''user request'']
         \<and> lookup fs' (path f) = None))"
  by (auto simp: delete_file_def safe_delete_file_def inc_errors_def inc_deleted_def log_error_def
      log_delete_def path_unlink_def lookup_def delete_conv' split: sum.splits option.splits node.splits if_splits)

theorem delete_file_result_witness:
  "\<not> path_exists small_fs (path gone_txt)
   \<and> (\<exists>st'. delete_file init_organizer small_fs gone_txt = Inr (False, st', small_fs)
         \<and> errors (stats st') = 1 \<and> deleted (stats st') = 0
         \<and> logger st' = [ERROR [''in'', ''gone.txt''] FileNotFoundError])
   \<and> path_exists small_fs (path a_txt) \<and> path_is_file small_fs (path a_txt)
   \<and> path_unlink small_fs (path a_txt) = Inr (small_fs\<lparr>nodes := [([], Dir), ([''in''], Dir)]\<rparr>)
   \<and> (\<exists>st'. delete_file init_organizer small_fs a_txt
               = Inr (True, st', small_fs\<lparr>nodes := [([], Dir), ([''in''], Dir)]\<rparr>)
         \<and> deleted (stats st') = 1 \<and> errors (stats st') = 0
         \<and> logger st' = [DELETED [''in'', ''a.txt''] ''user request''])"
proof -
  have g: "\<not> path_exists small_fs (path gone_txt)"
    by (simp add: small_fs_def gone_txt_def path_exists_def lookup_def)
  have a: "path_exists small_fs (path a_txt)" "path_is_file small_fs (path a_txt)"
    by (simp_all add: small_fs_def a_txt_def path_exists_def path_is_file_def lookup_def)
  have u: "path_unlink small_fs (path a_txt) = Inr (small_fs\<lparr>nodes := [([], Dir), ([''in''], Dir)]\<rparr>)"
    by (simp add: small_fs_def a_txt_def path_unlink_def lookup_def AList.delete_eq)
  have z: "errors (stats init_organizer) = 0" "deleted (stats init_organizer) = 0"
    "logger init_organizer = []" "path gone_txt = [''in'', ''gone.txt'']"
    "path a_txt = [''in'', ''a.txt'']"
    by (simp_all add: init_organizer_def init_stats_def gone_txt_def a_txt_def)
  show ?thesis
    using g a u z
      delete_file_result [where fs = small_fs and f = gone_txt and st = init_organizer]
      delete_file_result [where fs = small_fs and f = a_txt and st = init_organizer
        and fs' = "small_fs\<lparr>nodes := [([], Dir), ([''in''], Dir)]\<rparr>"]
    by auto
qed

section \<open>Conflict resolution\<close>

lemma all_candidates_exist_iff:
  "all_candidates_exist fs p = (\<forall>N. 1 \<le> N \<and> N \<le> 9999 \<longrightarrow> path_exists fs (new_path p N))"
  by (auto simp: all_candidates_exist_def list_all_iff)

lemma unique_loop_error: "unique_loop fs p c = Inl e \<Longrightarrow> e = ValueError"
  by (induction fs p c rule: unique_loop.induct)
     (subst (asm) unique_loop.simps, auto split: if_splits)

lemma unique_loop_found:
  "c \<le> N \<Longrightarrow> \<not> path_exists fs (new_path p N) \<Longrightarrow> N \<le> 9999
   \<Longrightarrow> (\<forall>M. c \<le> M \<and> M < N \<longrightarrow> path_exists fs (new_path p M))
   \<Longrightarrow> unique_loop fs p c = Inr (new_path p N)"
proof (induction fs p c rule: unique_loop.induct)
  case (1 fs p c)
  show ?case
  proof (cases "c = N")
    case True
    with "1.prems" show ?thesis by (subst unique_loop.simps) simp
  next
    case False
    with "1.prems" have lt: "c < N" by simp
    with "1.prems" have ex: "path_exists fs (new_path p c)" by simp
    from lt "1.prems" have le: "\<not> c + 1 > 9999" by simp
    have "unique_loop fs p (c + 1) = Inr (new_path p N)"
      using "1.IH" [OF _ le] ex lt "1.prems" by auto
    with ex le show ?thesis by (subst unique_loop.simps) simp
  qed
qed

lemma unique_loop_exhausted:
  "(\<forall>M. c \<le> M \<and> M \<le> 9999 \<longrightarrow> path_exists fs (new_path p M)) \<Longrightarrow> c \<le> 9999
   \<Longrightarrow> unique_loop fs p c = Inl ValueError"
proof (induction fs p c rule: unique_loop.induct)
  case (1 fs p c)
  from "1.prems" have ex: "path_exists fs (new_path p c)" by simp
  show ?case
  proof (cases "c + 1 > 9999")
    case True
    with ex show ?thesis by (subst unique_loop.simps) simp
  next
    case False
    have "unique_loop fs p (c + 1) = Inl ValueError"
      using "1.IH" [OF _ False] ex False "1.prems" by auto
    with ex False show ?thesis by (subst unique_loop.simps) simp
  qed
qed

lemma unique_loop_result:
  "unique_loop fs p c = Inr q \<Longrightarrow> c \<le> 9999
   \<Longrightarrow> \<exists>N. c \<le> N \<and> N \<le> 9999 \<and> q = new_path p N \<and> \<not> path_exists fs (new_path p N)
         \<and> (\<forall>M. c \<le> M \<and> M < N \<longrightarrow> path_exists fs (new_path p M))"
proof (induction fs p c rule: unique_loop.induct)
  case (1 fs p c)
  show ?case
  proof (cases "path_exists fs (new_path p c)")
    case False
    with "1.prems" have "q = new_path p c" by (subst (asm) unique_loop.simps) simp
    with False "1.prems" show ?thesis by (intro exI [of _ c]) auto
  next
    case True
    with "1.prems" have le: "\<not> c + 1 > 9999" and rec: "unique_loop fs p (c + 1) = Inr q"
      by (subst (asm) unique_loop.simps, simp split: if_splits)+
    from "1.IH" [OF _ le rec] True le
    obtain N where N: "c + 1 \<le> N" "N \<le> 9999" "q = new_path p N" "\<not> path_exists fs (new_path p N)"
      "\<forall>M. c + 1 \<le> M \<and> M < N \<longrightarrow> path_exists fs (new_path p M)" by auto
    have "\<forall>M. c \<le> M \<and> M < N \<longrightarrow> path_exists fs (new_path p M)"
    proof (intro allI impI)
      fix M assume "c \<le> M \<and> M < N"
      then show "path_exists fs (new_path p M)" using N(5) True by (cases "M = c") auto
    qed
    with N show ?thesis by (intro exI [of _ N]) simp
  qed
qed

lemma unique_loop_cong:
  "(\<And>N. path_exists fs1 (new_path p N) = path_exists fs (new_path p N))
   \<Longrightarrow> unique_loop fs1 p c = unique_loop fs p c"
proof (induction fs p c rule: unique_loop.induct)
  case (1 fs p c)
  show ?case
    using "1.IH" "1.prems"
    by (subst unique_loop.simps, subst (2) unique_loop.simps) auto
qed



lemma map_of_candidate_nodes:
  "1 \<le> N \<Longrightarrow> N \<le> 9999 \<Longrightarrow> map_of (candidate_nodes p) (new_path p N) = Some (File [])"
proof -
  have gen: "N \<in> set xs \<Longrightarrow> map_of (map (\<lambda>c. (new_path p c, File [])) xs) (new_path p N) = Some (File [])" for xs
    by (induction xs) auto
  assume "1 \<le> N" "N \<le> 9999"
  then have "N \<in> set [1..<10000]" by simp
  then show ?thesis unfolding candidate_nodes_def by (rule gen)
qed

lemma stem_f_txt: "path_stem [''d'', ''f.txt''] = ''f''" "path_suffix [''d'', ''f.txt''] = ''.txt''"
  "path_parent [''d'', ''f.txt''] = [''d'']"
  by (simp_all add: path_stem_def path_suffix_def name_stem_def name_suffix_def path_name_def path_parent_def)

lemma new_path_f_txt: "new_path [''d'', ''f.txt''] N = [''d'', ''f_'' @ str_nat N @ ''.txt'']"
  by (simp add: new_path_def stem_f_txt path_join_def)

lemma crowded_candidates:
  "1 \<le> N \<Longrightarrow> N \<le> 9999 \<Longrightarrow> path_exists crowded_fs (new_path [''d'', ''f.txt''] N)"
  using map_of_candidate_nodes [of N "[''d'', ''f.txt'']"]
  by (simp add: crowded_fs_def path_exists_def lookup_def new_path_f_txt)

lemma candidates_only_candidates:
  "1 \<le> N \<Longrightarrow> N \<le> 9999 \<Longrightarrow> path_exists candidates_only_fs (new_path [''d'', ''f.txt''] N)"
  using map_of_candidate_nodes [of N "[''d'', ''f.txt'']"]
  by (simp add: candidates_only_fs_def path_exists_def lookup_def new_path_f_txt)

lemma candidates_only_free: "\<not> path_exists candidates_only_fs [''d'', ''f.txt'']"
proof -
  have "map_of (candidate_nodes [''d'', ''f.txt'']) [''d'', ''f.txt''] = None"
    by (simp add: candidate_nodes_def map_of_eq_None_iff image_iff new_path_f_txt)
  then show ?thesis
    by (simp add: candidates_only_fs_def path_exists_def lookup_def)
qed

lemma get_unique_filename_error_iff:
  "(get_unique_filename fs p = Inl e) = (e = ValueError \<and> path_exists fs p \<and> all_candidates_exist fs p)"
proof (cases "path_exists fs p")
  case False
  then show ?thesis by (simp add: get_unique_filename_def)
next
  case True
  show ?thesis
  proof (cases "all_candidates_exist fs p")
    case all: True
    then have "unique_loop fs p 1 = Inl ValueError"
      by (intro unique_loop_exhausted) (auto simp: all_candidates_exist_iff)
    with True all show ?thesis by (auto simp: get_unique_filename_def)
  next
    case none: False
    then obtain N where N: "1 \<le> N" "N \<le> 9999" "\<not> path_exists fs (new_path p N)"
      by (auto simp: all_candidates_exist_iff)
    define K where "K = (LEAST k. 1 \<le> k \<and> \<not> path_exists fs (new_path p k))"
    have K: "1 \<le> K \<and> \<not> path_exists fs (new_path p K)"
      unfolding K_def by (rule LeastI [of _ N]) (use N in simp)
    have KN: "K \<le> N" unfolding K_def by (rule Least_le) (use N in simp)
    have below: "\<forall>M. 1 \<le> M \<and> M < K \<longrightarrow> path_exists fs (new_path p M)"
      unfolding K_def using not_less_Least by blast
    have "unique_loop fs p 1 = Inr (new_path p K)"
      using K KN N below by (intro unique_loop_found) auto
    with True none show ?thesis by (auto simp: get_unique_filename_def)
  qed
qed


lemma str_nat_digits: "str_nat 1 = ''1''" "str_nat (Suc 0) = ''1''" "str_nat 2 = ''2''"
  by (simp_all add: str_nat.simps digit_char_def)



text \<open>
  C6, as the code has it. \<^verbatim>\<open>get_unique_filename\<close> always returns or raises (the loop
  is bounded); the only exception it raises is the \<^verbatim>\<open>ValueError\<close>, and it raises it
  exactly when the path itself exists and every name \<open>stem_Nsuffix\<close> for \<open>N\<close> from 1
  to 9999 exists.
\<close>

theorem get_unique_filename_fails_iff:
  "(get_unique_filename fs p = Inl e)
     = (e = ValueError \<and> path_exists fs p \<and> all_candidates_exist fs p)"
  by (rule get_unique_filename_error_iff)

theorem get_unique_filename_fails_iff_witness:
  "all_candidates_exist crowded_fs [''d'', ''f.txt'']
   \<and> (get_unique_filename crowded_fs [''d'', ''f.txt''] = Inl ValueError)
   \<and> get_unique_filename two_taken_fs [''d'', ''f.txt''] \<noteq> Inl ValueError"
proof -
  have f: "path_exists crowded_fs [''d'', ''f.txt'']"
    by (simp add: crowded_fs_def path_exists_def lookup_def)
  have a: "all_candidates_exist crowded_fs [''d'', ''f.txt'']"
    by (simp add: all_candidates_exist_iff crowded_candidates)
  have "\<not> path_exists two_taken_fs (new_path [''d'', ''f.txt''] 2)"
    by (simp add: two_taken_fs_def path_exists_def lookup_def new_path_f_txt str_nat_digits)
  then have n: "\<not> all_candidates_exist two_taken_fs [''d'', ''f.txt'']"
    by (auto simp: all_candidates_exist_iff intro!: exI [of _ 2])
  show ?thesis
    using f a n
      get_unique_filename_fails_iff [of crowded_fs "[''d'', ''f.txt'']" ValueError]
      get_unique_filename_fails_iff [of two_taken_fs "[''d'', ''f.txt'']" ValueError]
    by simp
qed

theorem get_unique_filename_candidates_only:
  "all_candidates_exist candidates_only_fs [''d'', ''f.txt'']
   \<and> get_unique_filename candidates_only_fs [''d'', ''f.txt''] = Inr [''d'', ''f.txt'']"
  by (simp add: all_candidates_exist_iff candidates_only_candidates candidates_only_free
      get_unique_filename_def)

section \<open>Moving one file\<close>

lemma lookup_update: "lookup (fs\<lparr>nodes := AList.update p n (nodes fs)\<rparr>) q = (if q = p then Some n else lookup fs q)"
  by (simp add: lookup_def update_conv')

lemma lookup_delete: "lookup (fs\<lparr>nodes := AList.delete p (nodes fs)\<rparr>) q = (if q = p then None else lookup fs q)"
  by (simp add: lookup_def delete_conv')

lemma mkdir_result:
  "path_mkdir_exist_ok fs d = Inr fs1 \<Longrightarrow>
     denied fs1 = denied fs \<and> lookup fs1 d = Some Dir \<and> (\<forall>q. q \<noteq> d \<longrightarrow> lookup fs1 q = lookup fs q)"
  by (auto simp: path_mkdir_exist_ok_def lookup_update split: option.splits node.splits if_splits)

lemma mkdir_exists:
  "path_mkdir_exist_ok fs d = Inr fs1 \<Longrightarrow> q \<noteq> d \<Longrightarrow> path_exists fs1 q = path_exists fs q"
  by (drule mkdir_result) (simp add: path_exists_def)

lemma join_neq: "path_join d n \<noteq> d"
  by (simp add: path_join_def)

lemma new_path_join_neq: "new_path (path_join d n) N \<noteq> d"
  by (simp add: new_path_def path_join_def path_parent_def)

lemma get_unique_filename_mkdir:
  assumes "path_mkdir_exist_ok fs d = Inr fs1"
  shows "get_unique_filename fs1 (path_join d n) = get_unique_filename fs (path_join d n)"
proof -
  have "unique_loop fs1 (path_join d n) 1 = unique_loop fs (path_join d n) 1"
    by (rule unique_loop_cong) (rule mkdir_exists [OF assms new_path_join_neq])
  then show ?thesis
    by (simp add: get_unique_filename_def mkdir_exists [OF assms join_neq])
qed

text \<open>The outcomes of the try block.\<close>

lemma move_file_try_cases:
  "move_file_try cfg st fs f = r \<Longrightarrow>
    (\<exists>e. r = Inl (e, st, fs) \<and> path_mkdir_exist_ok fs (path_join (destination_base cfg) (category f)) = Inl e)
  \<or> (\<exists>fs1. path_mkdir_exist_ok fs (path_join (destination_base cfg) (category f)) = Inr fs1 \<and>
       ((path_exists fs (dest_path_of cfg f) \<and> r = Inl (ValueError, st, fs1)
           \<and> get_unique_filename fs (dest_path_of cfg f) = Inl ValueError)
      \<or> (\<not> path_exists fs (dest_path_of cfg f) \<and>
           ((\<exists>e. shutil_move fs1 (path f) (dest_path_of cfg f) = Inl e \<and> r = Inl (e, st, fs1))
          \<or> (\<exists>fs2. shutil_move fs1 (path f) (dest_path_of cfg f) = Inr fs2
                \<and> r = Inr (dest_path_of cfg f,
                           inc_moved (log_move st (path f) (dest_path_of cfg f) (category f)), fs2))))
      \<or> (\<exists>u. path_exists fs (dest_path_of cfg f) \<and> get_unique_filename fs (dest_path_of cfg f) = Inr u \<and>
           ((\<exists>e. shutil_move fs1 (path f) u = Inl e
                \<and> r = Inl (e, inc_renamed (log_rename st (dest_path_of cfg f) u ''name conflict''), fs1))
          \<or> (\<exists>fs2. shutil_move fs1 (path f) u = Inr fs2
                \<and> r = Inr (u, inc_moved (log_move (inc_renamed (log_rename st (dest_path_of cfg f) u ''name conflict''))
                                     (path f) u (category f)), fs2))))))"
proof (cases "path_mkdir_exist_ok fs (path_join (destination_base cfg) (category f))")
  case (Inl e)
  assume "move_file_try cfg st fs f = r"
  with Inl show ?thesis by (auto simp: move_file_try_def create_destination_dir_def)
next
  case (Inr fs1)
  assume r: "move_file_try cfg st fs f = r"
  have ex: "path_exists fs1 (dest_path_of cfg f) = path_exists fs (dest_path_of cfg f)"
    unfolding dest_path_of_def by (rule mkdir_exists [OF Inr join_neq])
  have gu: "get_unique_filename fs1 (dest_path_of cfg f) = get_unique_filename fs (dest_path_of cfg f)"
    unfolding dest_path_of_def by (rule get_unique_filename_mkdir [OF Inr])
  have ve: "\<And>e. get_unique_filename fs (dest_path_of cfg f) = Inl e \<Longrightarrow> e = ValueError"
    by (simp add: get_unique_filename_error_iff)
  show ?thesis
    using r Inr ex gu ve
    by (auto simp: move_file_try_def create_destination_dir_def handle_name_conflict_def
        dest_path_of_def [symmetric] split: sum.splits if_splits)
qed

lemma move_file_outcome:
  assumes "move_file cfg st fs f = Inr (r, st', fs')"
  shows "(r = (False, None) \<and> (\<exists>e. st' = inc_errors (log_error st (path f) e)))
       \<or> (r = (False, None) \<and> path_exists fs (dest_path_of cfg f)
            \<and> (\<exists>u e. get_unique_filename fs (dest_path_of cfg f) = Inr u
                  \<and> st' = inc_errors (log_error (inc_renamed
                            (log_rename st (dest_path_of cfg f) u ''name conflict'')) (path f) e)))
       \<or> (r = (True, Some (dest_path_of cfg f)) \<and> \<not> path_exists fs (dest_path_of cfg f)
            \<and> st' = inc_moved (log_move st (path f) (dest_path_of cfg f) (category f))
            \<and> (\<exists>fs1. path_mkdir_exist_ok fs (path_join (destination_base cfg) (category f)) = Inr fs1
                  \<and> shutil_move fs1 (path f) (dest_path_of cfg f) = Inr fs'))
       \<or> (path_exists fs (dest_path_of cfg f)
            \<and> (\<exists>u. r = (True, Some u) \<and> get_unique_filename fs (dest_path_of cfg f) = Inr u
                  \<and> st' = inc_moved (log_move (inc_renamed
                            (log_rename st (dest_path_of cfg f) u ''name conflict'')) (path f) u (category f))
                  \<and> (\<exists>fs1. path_mkdir_exist_ok fs (path_join (destination_base cfg) (category f)) = Inr fs1
                        \<and> shutil_move fs1 (path f) u = Inr fs')))"
  using move_file_try_cases [OF refl, of cfg st fs f] assms
  by (auto simp: move_file_def split: sum.splits)

lemma move_file_returns: "\<exists>r st' fs'. move_file cfg st fs f = Inr (r, st', fs')"
  by (auto simp: move_file_def split: sum.splits)

lemmas counter_defs = inc_errors_def inc_moved_def inc_renamed_def inc_deleted_def inc_skipped_def
  log_error_def log_move_def log_rename_def log_delete_def log_skip_def processed_def

lemma move_file_stats:
  assumes "move_file cfg st fs f = Inr (r, st', fs')"
  shows "processed (stats st') = processed (stats st) + 1
       \<and> moved (stats st') + errors (stats st') = moved (stats st) + errors (stats st) + 1
       \<and> total (stats st') = total (stats st)
       \<and> deleted (stats st') = deleted (stats st)
       \<and> skipped (stats st') = skipped (stats st)
       \<and> moved (stats st) \<le> moved (stats st')
       \<and> errors (stats st) \<le> errors (stats st')
       \<and> renamed (stats st) \<le> renamed (stats st')
       \<and> renamed (stats st') \<le> renamed (stats st) + 1"
  using move_file_outcome [OF assms] by (auto simp: counter_defs)

lemma move_file_log:
  assumes "move_file cfg st fs f = Inr (r, st', fs')"
  shows "\<exists>evs. logger st' = logger st @ evs \<and> terminal_subjects evs = [path f]"
  using move_file_outcome [OF assms]
  by (auto simp: counter_defs terminal_subjects_def)

lemma delete_file_stats:
  assumes "delete_file st fs f = Inr (ok, st', fs')"
  shows "processed (stats st') = processed (stats st) + 1
       \<and> total (stats st') = total (stats st)
       \<and> moved (stats st') = moved (stats st)
       \<and> renamed (stats st') = renamed (stats st)
       \<and> errors (stats st) \<le> errors (stats st')
       \<and> (\<exists>evs. logger st' = logger st @ evs \<and> terminal_subjects evs = [path f])"
  using assms
  by (auto simp: delete_file_def counter_defs terminal_subjects_def
      split: prod.splits bool.splits)

lemma skip_file_stats:
  assumes "skip_file st f reason = Inr st'"
  shows "processed (stats st') = processed (stats st) + 1
       \<and> total (stats st') = total (stats st)
       \<and> moved (stats st') = moved (stats st)
       \<and> renamed (stats st') = renamed (stats st)
       \<and> errors (stats st') = errors (stats st)
       \<and> (\<exists>evs. logger st' = logger st @ evs \<and> terminal_subjects evs = [path f])"
  using assms
  by (auto simp: skip_file_def counter_defs terminal_subjects_def)

lemma terminal_subjects_append:
  "terminal_subjects (xs @ ys) = terminal_subjects xs @ terminal_subjects ys"
  by (simp add: terminal_subjects_def List.map_filter_def)

lemma move_all_returns: "\<exists>st' fs'. move_all cfg st fs files = Inr (st', fs')"
proof (induction files arbitrary: st fs)
  case Nil
  show ?case by simp
next
  case (Cons f files)
  obtain r st1 fs1 where "move_file cfg st fs f = Inr (r, st1, fs1)"
    using move_file_returns by blast
  with Cons.IH [of st1 fs1] show ?case by simp
qed

lemma move_all_stats:
  "move_all cfg st fs files = Inr (st', fs') \<Longrightarrow>
     processed (stats st') = processed (stats st) + length files
     \<and> moved (stats st') + errors (stats st') = moved (stats st) + errors (stats st) + length files
     \<and> total (stats st') = total (stats st)
     \<and> deleted (stats st') = deleted (stats st)
     \<and> skipped (stats st') = skipped (stats st)
     \<and> moved (stats st) \<le> moved (stats st')
     \<and> errors (stats st) \<le> errors (stats st')
     \<and> renamed (stats st) \<le> renamed (stats st')
     \<and> renamed (stats st') \<le> renamed (stats st) + length files
     \<and> (\<exists>evs. logger st' = logger st @ evs \<and> terminal_subjects evs = map path files)"
proof (induction files arbitrary: st fs)
  case Nil
  then show ?case by (simp add: terminal_subjects_def)
next
  case (Cons f files)
  obtain r st1 fs1 where m: "move_file cfg st fs f = Inr (r, st1, fs1)"
    using move_file_returns by blast
  with Cons.prems have rest: "move_all cfg st1 fs1 files = Inr (st', fs')" by simp
  note s = move_file_stats [OF m] and l = move_file_log [OF m] and ih = Cons.IH [OF rest]
  from l ih obtain e1 e2 where e: "logger st1 = logger st @ e1" "terminal_subjects e1 = [path f]"
    "logger st' = logger st1 @ e2" "terminal_subjects e2 = map path files" by blast
  then have "logger st' = logger st @ (e1 @ e2) \<and> terminal_subjects (e1 @ e2) = map path (f # files)"
    by (simp add: terminal_subjects_append)
  then have "\<exists>evs. logger st' = logger st @ evs \<and> terminal_subjects evs = map path (f # files)"
    by blast
  with s ih show ?case by simp
qed


lemma get_unique_filename_fresh:
  assumes "path_exists fs p" "get_unique_filename fs p = Inr u"
  shows "\<not> path_exists fs u \<and> u \<noteq> p \<and> (\<exists>N. u = new_path p N)"
proof -
  from assms have "unique_loop fs p 1 = Inr u" by (simp add: get_unique_filename_def)
  from unique_loop_result [OF this] obtain N where "u = new_path p N" "\<not> path_exists fs u" by auto
  with assms(1) show ?thesis by auto
qed

lemma shutil_move_file:
  assumes "shutil_move fs1 src u = Inr fs'" "\<not> path_exists fs1 u" "lookup fs1 src = Some (File c)"
  shows "fs' = fs1\<lparr>nodes := AList.update u (File c) (AList.delete src (nodes fs1))\<rparr>"
  using assms
  by (auto simp: shutil_move_def os_rename_def path_is_dir_def path_exists_def Let_def
      split: if_splits option.splits node.splits)

lemma move_file_conflict_fs:
  assumes mk: "path_mkdir_exist_ok fs d = Inr fs1"
    and mv: "shutil_move fs1 src u = Inr fs'"
    and isf: "path_is_file fs src"
    and fresh: "\<not> path_exists fs u" "u \<noteq> d"
    and dest: "dest \<noteq> src" "dest \<noteq> u" "dest \<noteq> d"
  shows "lookup fs' u = lookup fs src \<and> lookup fs' dest = lookup fs dest \<and> lookup fs' src = None"
proof -
  from isf obtain c where c: "lookup fs src = Some (File c)"
    by (auto simp: path_is_file_def split: option.splits node.splits)
  have srcd: "src \<noteq> d"
    using mk c by (auto simp: path_mkdir_exist_ok_def split: option.splits node.splits if_splits)
  note r = mkdir_result [OF mk]
  from r srcd c have c1: "lookup fs1 src = Some (File c)" by simp
  from fresh mkdir_exists [OF mk] have f1: "\<not> path_exists fs1 u" by simp
  have su: "src \<noteq> u" using c fresh by (auto simp: path_exists_def)
  note fs' = shutil_move_file [OF mv f1 c1]
  have "lookup fs' u = Some (File c)" by (simp add: fs' lookup_def update_conv')
  moreover have "lookup fs' dest = lookup fs1 dest"
    using dest by (simp add: fs' lookup_def update_conv' delete_conv')
  moreover have "lookup fs' src = None"
    using su by (simp add: fs' lookup_def update_conv' delete_conv')
  ultimately show ?thesis using c r dest by simp
qed


section \<open>Evaluating the concrete inputs\<close>

lemmas fs_defs = lookup_def path_exists_def path_is_dir_def path_is_file_def path_stat_size_def
  path_mkdir_exist_ok_def path_unlink_def os_rename_def shutil_move_def path_join_def path_parent_def
  path_name_def path_stem_def path_suffix_def name_stem_def name_suffix_def

lemmas move_defs = move_file_def move_file_try_def create_destination_dir_def handle_name_conflict_def
  get_unique_filename_def new_path_def name_def dest_path_of_def

lemmas state_defs = init_organizer_def init_stats_def inc_errors_def inc_moved_def inc_renamed_def
  inc_deleted_def inc_skipped_def set_total_def log_error_def log_move_def log_rename_def
  log_delete_def log_skip_def log_summary_def

lemma move_conflict_eval:
  "move_file cfg_io init_organizer conflict_fs report_pdf =
     Inr ((True, Some [''out'', ''Documents'', ''report_1.pdf'']),
          \<lparr>stats = \<lparr>total = 0, moved = 1, renamed = 1, deleted = 0, skipped = 0, errors = 0\<rparr>,
           logger = [RENAMED [''out'', ''Documents'', ''report.pdf'']
                       [''out'', ''Documents'', ''report_1.pdf''] ''name conflict'',
                     MOVED [''in'', ''report.pdf''] [''out'', ''Documents'', ''report_1.pdf'']
                       ''Documents'']\<rparr>,
          \<lparr>nodes = [([], Dir), ([''in''], Dir), ([''out''], Dir), ([''out'', ''Documents''], Dir),
                    ([''out'', ''Documents'', ''report.pdf''], File ''old''),
                    ([''out'', ''Documents'', ''report_1.pdf''], File ''new'')],
           denied = {}\<rparr>)"
  by (simp add: cfg_io_def report_pdf_def conflict_fs_def conflict_nodes_def move_defs fs_defs
      state_defs unique_loop.simps str_nat_digits AList.delete_eq Let_def)

lemma move_locked_eval:
  "move_file cfg_io init_organizer locked_fs report_pdf =
     Inr ((False, None),
          \<lparr>stats = \<lparr>total = 0, moved = 0, renamed = 1, deleted = 0, skipped = 0, errors = 1\<rparr>,
           logger = [RENAMED [''out'', ''Documents'', ''report.pdf'']
                       [''out'', ''Documents'', ''report_1.pdf''] ''name conflict'',
                     ERROR [''in'', ''report.pdf''] PermissionError]\<rparr>,
          locked_fs)"
  by (simp add: cfg_io_def report_pdf_def locked_fs_def conflict_nodes_def move_defs fs_defs
      state_defs unique_loop.simps str_nat_digits AList.delete_eq Let_def)


section \<open>The outcome of one move\<close>

text \<open>
  C2, as the code has it. When the computed destination path already exists and
  \<^verbatim>\<open>move_file\<close> returns success, it has logged a RENAMED event and then a MOVED event,
  the returned path is the one the resolver chose (it did not exist, and it is not the
  desired path), and \<open>renamed\<close> has grown by one. When the descriptor's path is a regular
  file other than the desired path, that file is afterwards found at the chosen path,
  no longer at its old one, and what stood at the desired path is unchanged.
\<close>

theorem move_file_conflict:
  "path_exists fs (dest_path_of cfg f) \<and> move_file cfg st fs f = Inr ((True, d), st', fs') \<longrightarrow>
     (\<exists>u. d = Some u \<and> get_unique_filename fs (dest_path_of cfg f) = Inr u
        \<and> u \<noteq> dest_path_of cfg f \<and> \<not> path_exists fs u
        \<and> logger st' = logger st @ [RENAMED (dest_path_of cfg f) u ''name conflict'',
                                      MOVED (path f) u (category f)]
        \<and> renamed (stats st') = renamed (stats st) + 1
        \<and> moved (stats st') = moved (stats st) + 1
        \<and> (path_is_file fs (path f) \<and> path f \<noteq> dest_path_of cfg f \<longrightarrow>
             lookup fs' u = lookup fs (path f)
             \<and> lookup fs' (dest_path_of cfg f) = lookup fs (dest_path_of cfg f)
             \<and> lookup fs' (path f) = None))"
proof
  assume h: "path_exists fs (dest_path_of cfg f) \<and> move_file cfg st fs f = Inr ((True, d), st', fs')"
  from move_file_outcome [of cfg st fs f "(True, d)" st' fs'] h
  obtain u fs1 where u: "d = Some u" "get_unique_filename fs (dest_path_of cfg f) = Inr u"
    "st' = inc_moved (log_move (inc_renamed
             (log_rename st (dest_path_of cfg f) u ''name conflict'')) (path f) u (category f))"
    "path_mkdir_exist_ok fs (path_join (destination_base cfg) (category f)) = Inr fs1"
    "shutil_move fs1 (path f) u = Inr fs'"
    by auto
  from get_unique_filename_fresh [OF _ u(2)] h
  obtain N where fr: "\<not> path_exists fs u" "u \<noteq> dest_path_of cfg f" "u = new_path (dest_path_of cfg f) N"
    by auto
  have ud: "u \<noteq> path_join (destination_base cfg) (category f)"
    unfolding fr(3) dest_path_of_def by (rule new_path_join_neq)
  have dd: "dest_path_of cfg f \<noteq> path_join (destination_base cfg) (category f)"
    unfolding dest_path_of_def by (rule join_neq)
  have fsp: "path_is_file fs (path f) \<and> path f \<noteq> dest_path_of cfg f \<longrightarrow>
             lookup fs' u = lookup fs (path f)
             \<and> lookup fs' (dest_path_of cfg f) = lookup fs (dest_path_of cfg f)
             \<and> lookup fs' (path f) = None"
    using move_file_conflict_fs [OF u(4) u(5) _ fr(1) ud _ _ dd] fr(2) by auto
  show "\<exists>u. d = Some u \<and> get_unique_filename fs (dest_path_of cfg f) = Inr u
        \<and> u \<noteq> dest_path_of cfg f \<and> \<not> path_exists fs u
        \<and> logger st' = logger st @ [RENAMED (dest_path_of cfg f) u ''name conflict'',
                                      MOVED (path f) u (category f)]
        \<and> renamed (stats st') = renamed (stats st) + 1
        \<and> moved (stats st') = moved (stats st) + 1
        \<and> (path_is_file fs (path f) \<and> path f \<noteq> dest_path_of cfg f \<longrightarrow>
             lookup fs' u = lookup fs (path f)
             \<and> lookup fs' (dest_path_of cfg f) = lookup fs (dest_path_of cfg f)
             \<and> lookup fs' (path f) = None)"
    using u(1,2) fr(1,2) fsp by (intro exI [of _ u]) (simp add: u(3) counter_defs)
qed


theorem move_file_conflict_witness:
  "path_exists conflict_fs (dest_path_of cfg_io report_pdf)
   \<and> path_is_file conflict_fs (path report_pdf)
   \<and> path report_pdf \<noteq> dest_path_of cfg_io report_pdf
   \<and> (\<exists>st' fs'. move_file cfg_io init_organizer conflict_fs report_pdf
                    = Inr ((True, Some [''out'', ''Documents'', ''report_1.pdf'']), st', fs')
         \<and> renamed (stats st') = 1
         \<and> logger st' = [RENAMED [''out'', ''Documents'', ''report.pdf'']
                            [''out'', ''Documents'', ''report_1.pdf''] ''name conflict'',
                          MOVED [''in'', ''report.pdf''] [''out'', ''Documents'', ''report_1.pdf'']
                            ''Documents'']
         \<and> lookup fs' [''out'', ''Documents'', ''report_1.pdf''] = Some (File ''new'')
         \<and> lookup fs' [''out'', ''Documents'', ''report.pdf''] = Some (File ''old'')
         \<and> lookup fs' [''in'', ''report.pdf''] = None)"
proof -
  have d: "dest_path_of cfg_io report_pdf = [''out'', ''Documents'', ''report.pdf'']"
    "path report_pdf = [''in'', ''report.pdf'']" "category report_pdf = ''Documents''"
    by (simp_all add: dest_path_of_def cfg_io_def report_pdf_def name_def path_join_def path_name_def)
  have l: "lookup conflict_fs [''out'', ''Documents'', ''report.pdf''] = Some (File ''old'')"
    "lookup conflict_fs [''in'', ''report.pdf''] = Some (File ''new'')"
    by (simp_all add: conflict_fs_def conflict_nodes_def lookup_def)
  have z: "renamed (stats init_organizer) = 0" "logger init_organizer = []"
    by (simp_all add: init_organizer_def init_stats_def)
  from l have e: "path_exists conflict_fs [''out'', ''Documents'', ''report.pdf'']"
    "path_is_file conflict_fs [''in'', ''report.pdf'']"
    by (simp_all add: path_exists_def path_is_file_def)
  show ?thesis
    using d l z e move_conflict_eval
      move_file_conflict [where cfg = cfg_io and st = init_organizer and fs = conflict_fs
        and f = report_pdf and d = "Some [''out'', ''Documents'', ''report_1.pdf'']"]
    by auto
qed

theorem move_file_conflict_locked:
  "path_exists locked_fs (dest_path_of cfg_io report_pdf)
   \<and> move_file cfg_io init_organizer locked_fs report_pdf =
       Inr ((False, None),
            \<lparr>stats = \<lparr>total = 0, moved = 0, renamed = 1, deleted = 0, skipped = 0, errors = 1\<rparr>,
             logger = [RENAMED [''out'', ''Documents'', ''report.pdf'']
                         [''out'', ''Documents'', ''report_1.pdf''] ''name conflict'',
                       ERROR [''in'', ''report.pdf''] PermissionError]\<rparr>,
            locked_fs)
   \<and> lookup locked_fs [''in'', ''report.pdf''] = Some (File ''new'')
   \<and> lookup locked_fs [''out'', ''Documents'', ''report_1.pdf''] = None"
  using move_locked_eval
  by (simp add: dest_path_of_def cfg_io_def report_pdf_def name_def path_join_def path_name_def
      locked_fs_def conflict_nodes_def path_exists_def lookup_def)





section \<open>Scanning and the runs\<close>

lemma stat_error: "path_stat_size fs item = Inl e \<Longrightarrow> e = FileNotFoundError"
  by (auto simp: path_stat_size_def split: option.splits node.splits)

lemma scan_items_result:
  "scan_items cfg fs items st acc = (files, st') \<Longrightarrow>
     files = acc @ scanned cfg fs items
     \<and> logger st' = logger st @ map (\<lambda>item. ERROR item FileNotFoundError) (scan_failures fs items)
     \<and> errors (stats st') = errors (stats st) + length (scan_failures fs items)
     \<and> total (stats st') = total (stats st)
     \<and> moved (stats st') = moved (stats st)
     \<and> renamed (stats st') = renamed (stats st)
     \<and> deleted (stats st') = deleted (stats st)
     \<and> skipped (stats st') = skipped (stats st)"
proof (induction items arbitrary: st acc)
  case Nil
  then show ?case by (simp add: scanned_def scan_failures_def)
next
  case (Cons item items)
  show ?case
  proof (cases "scan_candidate fs item")
    case False
    with Cons.prems have "scan_items cfg fs items st acc = (files, st')"
      by (auto simp: scan_candidate_def split: if_splits)
    from Cons.IH [OF this] False show ?thesis by (simp add: scanned_def scan_failures_def)
  next
    case True
    show ?thesis
    proof (cases "path_stat_size fs item")
      case (Inr sz)
      with True Cons.prems
      have "scan_items cfg fs items st (acc @ [describe cfg fs item]) = (files, st')"
        by (simp add: scan_candidate_def describe_def)
      from Cons.IH [OF this] True Inr show ?thesis
        by (simp add: scanned_def scan_failures_def stat_ok_def)
    next
      case (Inl e)
      then have e: "e = FileNotFoundError" by (rule stat_error)
      with Inl True Cons.prems
      have "scan_items cfg fs items (inc_errors (log_error st item FileNotFoundError)) acc = (files, st')"
        by (simp add: scan_candidate_def)
      from Cons.IH [OF this] True Inl show ?thesis
        by (simp add: scanned_def scan_failures_def stat_ok_def counter_defs)
    qed
  qed
qed


lemma iterdir_not_dir: "\<not> path_is_dir fs d \<Longrightarrow> \<exists>e. path_iterdir fs d = Inl e"
  by (auto simp: path_is_dir_def path_iterdir_def split: option.splits node.splits)

lemma scan_files_result:
  "scan_files cfg st fs = Inr (files, st') \<Longrightarrow>
     \<exists>items. path_iterdir fs (source_dir cfg) = Inr items
       \<and> files = scanned cfg fs items
       \<and> logger st' = logger st @ map (\<lambda>item. ERROR item FileNotFoundError) (scan_failures fs items)
       \<and> errors (stats st') = errors (stats st) + length (scan_failures fs items)
       \<and> total (stats st') = total (stats st)
       \<and> moved (stats st') = moved (stats st)
       \<and> renamed (stats st') = renamed (stats st)
       \<and> deleted (stats st') = deleted (stats st)
       \<and> skipped (stats st') = skipped (stats st)"
  by (auto simp: scan_files_def split: sum.splits dest!: scan_items_result)


lemma delete_file_returns: "\<exists>ok st' fs'. delete_file st fs f = Inr (ok, st', fs')"
proof -
  obtain b fs' where "safe_delete_file fs (path f) = (b, fs')" by (cases "safe_delete_file fs (path f)")
  then show ?thesis by (cases b) (auto simp: delete_file_def)
qed

lemma process_file_interactive_stats:
  "\<exists>st' fs'. process_file_interactive cfg st fs f choice = Inr (st', fs')
     \<and> processed (stats st') = processed (stats st) + 1
     \<and> total (stats st') = total (stats st)
     \<and> errors (stats st) \<le> errors (stats st')
     \<and> renamed (stats st') + moved (stats st) + errors (stats st)
         \<le> renamed (stats st) + moved (stats st') + errors (stats st')"
proof (cases choice)
  case Auto
  obtain r st' fs' where m: "move_file cfg st fs f = Inr (r, st', fs')"
    using move_file_returns by blast
  from move_file_stats [OF m] m Auto show ?thesis
    by (simp add: process_file_interactive_def)
next
  case (Manual c)
  obtain r st' fs' where m: "move_file cfg st fs (f\<lparr>category := c\<rparr>) = Inr (r, st', fs')"
    using move_file_returns by blast
  from move_file_stats [OF m] m Manual show ?thesis
    by (simp add: process_file_interactive_def)
next
  case (Delete confirmed)
  show ?thesis
  proof (cases confirmed)
    case True
    obtain ok st' fs' where d: "delete_file st fs f = Inr (ok, st', fs')"
      using delete_file_returns by blast
    from delete_file_stats [OF d] d Delete True show ?thesis
      by (simp add: process_file_interactive_def)
  next
    case False
    obtain st' where k: "skip_file st f ''delete cancelled'' = Inr st'"
      by (simp add: skip_file_def)
    from skip_file_stats [OF k] k Delete False show ?thesis
      by (simp add: process_file_interactive_def)
  qed
next
  case Skip
  obtain st' where k: "skip_file st f ''user choice'' = Inr st'"
    by (simp add: skip_file_def)
  from skip_file_stats [OF k] k Skip show ?thesis
    by (simp add: process_file_interactive_def)
qed

lemma interactive_loop_stats:
  "\<exists>st' fs'. interactive_loop cfg st fs work = Inr (st', fs')
     \<and> processed (stats st') = processed (stats st) + length work
     \<and> total (stats st') = total (stats st)
     \<and> errors (stats st) \<le> errors (stats st')
     \<and> renamed (stats st') + moved (stats st) + errors (stats st)
         \<le> renamed (stats st) + moved (stats st') + errors (stats st')"
proof (induction work arbitrary: st fs)
  case Nil
  show ?case by simp
next
  case (Cons w work)
  obtain f choice where w: "w = (f, choice)" by (cases w)
  from process_file_interactive_stats [of cfg st fs f choice]
  obtain st1 fs1 where p: "process_file_interactive cfg st fs f choice = Inr (st1, fs1)"
    "processed (stats st1) = processed (stats st) + 1"
    "total (stats st1) = total (stats st)"
    "errors (stats st) \<le> errors (stats st1)"
    "renamed (stats st1) + moved (stats st) + errors (stats st)
         \<le> renamed (stats st) + moved (stats st1) + errors (stats st1)"
    by blast
  from Cons.IH [of st1 fs1] obtain st' fs' where
    l: "interactive_loop cfg st1 fs1 work = Inr (st', fs')"
    "processed (stats st') = processed (stats st1) + length work"
    "total (stats st') = total (stats st1)"
    "errors (stats st1) \<le> errors (stats st')"
    "renamed (stats st') + moved (stats st1) + errors (stats st1)
         \<le> renamed (stats st1) + moved (stats st') + errors (stats st')"
    by blast
  show ?case
    apply (rule exI [of _ st'], rule exI [of _ fs'])
    using w p l by simp
qed

lemmas scan_defs = scan_files_def path_iterdir_def should_ignore_file_def is_hidden_file_def
  is_system_file_def system_files_def get_file_category_def lower_def char_lower_def
  ascii_uppercase_def ascii_lowercase_def

lemma scan_dangling_eval:
  "scan_files cfg_io init_organizer dangling_fs =
     Inr ([\<lparr>path = [''in'', ''a.txt''], category = ''Others'', size_bytes = 1\<rparr>],
          \<lparr>stats = \<lparr>total = 0, moved = 0, renamed = 0, deleted = 0, skipped = 0, errors = 1\<rparr>,
           logger = [ERROR [''in'', ''broken''] FileNotFoundError]\<rparr>)"
  by (simp add: cfg_io_def dangling_fs_def scan_defs fs_defs state_defs)


lemma organize_dangling_eval:
  "organize_all cfg_io init_organizer dangling_fs =
     Inr (\<lparr>total = 1, moved = 1, renamed = 0, deleted = 0, skipped = 0, errors = 1\<rparr>,
          \<lparr>stats = \<lparr>total = 1, moved = 1, renamed = 0, deleted = 0, skipped = 0, errors = 1\<rparr>,
           logger = [ERROR [''in'', ''broken''] FileNotFoundError,
                     MOVED [''in'', ''a.txt''] [''out'', ''Others'', ''a.txt''] ''Others'',
                     SUMMARY \<lparr>total = 1, moved = 1, renamed = 0, deleted = 0, skipped = 0,
                               errors = 1\<rparr>]\<rparr>,
          \<lparr>nodes = [([], Dir), ([''in''], Dir), ([''in'', ''broken''], Dangling),
                    ([''in'', ''.DS_Store''], File []), ([''in'', ''sub''], Dir),
                    ([''out''], Dir), ([''out'', ''Others''], Dir),
                    ([''out'', ''Others'', ''a.txt''], File ''x'')],
           denied = {}\<rparr>)"
proof -
  have m: "move_file cfg_io
      \<lparr>stats = \<lparr>total = 1, moved = 0, renamed = 0, deleted = 0, skipped = 0, errors = 1\<rparr>,
       logger = [ERROR [''in'', ''broken''] FileNotFoundError]\<rparr>
      dangling_fs \<lparr>path = [''in'', ''a.txt''], category = ''Others'', size_bytes = 1\<rparr> =
     Inr ((True, Some [''out'', ''Others'', ''a.txt'']),
          \<lparr>stats = \<lparr>total = 1, moved = 1, renamed = 0, deleted = 0, skipped = 0, errors = 1\<rparr>,
           logger = [ERROR [''in'', ''broken''] FileNotFoundError,
                     MOVED [''in'', ''a.txt''] [''out'', ''Others'', ''a.txt''] ''Others'']\<rparr>,
          \<lparr>nodes = [([], Dir), ([''in''], Dir), ([''in'', ''broken''], Dangling),
                    ([''in'', ''.DS_Store''], File []), ([''in'', ''sub''], Dir),
                    ([''out''], Dir), ([''out'', ''Others''], Dir),
                    ([''out'', ''Others'', ''a.txt''], File ''x'')],
           denied = {}\<rparr>)"
    by (simp add: cfg_io_def dangling_fs_def move_defs fs_defs state_defs AList.delete_eq Let_def)
  show ?thesis
    using m by (simp add: organize_all_def scan_dangling_eval set_total_def log_summary_def)
qed







text \<open>
  C1, as the code has it. For \<^verbatim>\<open>organize_all\<close> and for the interactive run on a fresh
  organizer, with \<open>E\<close> the errors counted during the scan (for entries left out of the
  scanned list): once every scanned file has been processed, \<open>total\<close> is the number of
  scanned files and \<open>total + E = moved + deleted + skipped + errors\<close>; \<open>renamed\<close> counts
  the conflicts resolved, so \<open>renamed + E \<le> moved + errors\<close>, and \<open>renamed \<le> moved\<close>
  when no error was counted after the scan. With \<open>E = 0\<close> the sum is \<open>total\<close>.
\<close>

theorem counters_after_run:
  "(scan_files cfg init_organizer fs = Inr (files, sts) \<longrightarrow>
      (\<exists>s st2 fs2. organize_all cfg init_organizer fs = Inr (s, st2, fs2) \<and> s = stats st2
         \<and> total s = length files
         \<and> total s + errors (stats sts) = moved s + deleted s + skipped s + errors s
         \<and> renamed s + errors (stats sts) \<le> moved s + errors s
         \<and> (errors s = errors (stats sts) \<longrightarrow> renamed s \<le> moved s)
         \<and> (errors (stats sts) = 0 \<longrightarrow> total s = moved s + deleted s + skipped s + errors s)))
   \<and> (scan_files cfg init_organizer fs = Inr (files, sts) \<longrightarrow>
      (\<exists>st2 fs2. run_interactive_mode cfg init_organizer fs ask = Inr (st2, fs2)
         \<and> total (stats st2) = length files
         \<and> total (stats st2) + errors (stats sts)
             = moved (stats st2) + deleted (stats st2) + skipped (stats st2) + errors (stats st2)
         \<and> renamed (stats st2) + errors (stats sts) \<le> moved (stats st2) + errors (stats st2)
         \<and> (errors (stats st2) = errors (stats sts) \<longrightarrow> renamed (stats st2) \<le> moved (stats st2))
         \<and> (errors (stats sts) = 0 \<longrightarrow>
              total (stats st2)
                = moved (stats st2) + deleted (stats st2) + skipped (stats st2) + errors (stats st2))))"
proof (intro conjI impI)
  assume s: "scan_files cfg init_organizer fs = Inr (files, sts)"
  from scan_files_result [OF s]
  have z: "moved (stats sts) = 0" "deleted (stats sts) = 0" "skipped (stats sts) = 0"
    "renamed (stats sts) = 0" "total (stats sts) = 0"
    by (auto simp: init_organizer_def init_stats_def)
  obtain st2 fs2 where m: "move_all cfg (set_total sts (length files)) fs files = Inr (st2, fs2)"
    using move_all_returns by blast
  from move_all_stats [OF m] z
  have c: "moved (stats st2) + errors (stats st2) = errors (stats sts) + length files"
      "total (stats st2) = length files" "deleted (stats st2) = 0" "skipped (stats st2) = 0"
      "errors (stats sts) \<le> errors (stats st2)" "renamed (stats st2) \<le> length files"
    by (auto simp: set_total_def)
  show "\<exists>s st2 fs2. organize_all cfg init_organizer fs = Inr (s, st2, fs2) \<and> s = stats st2
         \<and> total s = length files
         \<and> total s + errors (stats sts) = moved s + deleted s + skipped s + errors s
         \<and> renamed s + errors (stats sts) \<le> moved s + errors s
         \<and> (errors s = errors (stats sts) \<longrightarrow> renamed s \<le> moved s)
         \<and> (errors (stats sts) = 0 \<longrightarrow> total s = moved s + deleted s + skipped s + errors s)"
    apply (rule exI [of _ "stats (log_summary st2)"], rule exI [of _ "log_summary st2"], rule exI [of _ fs2])
    using s m c by (simp add: organize_all_def log_summary_def)
next
  assume s: "scan_files cfg init_organizer fs = Inr (files, sts)"
  from scan_files_result [OF s]
  have z: "moved (stats sts) = 0" "deleted (stats sts) = 0" "skipped (stats sts) = 0"
    "renamed (stats sts) = 0" "total (stats sts) = 0"
    by (auto simp: init_organizer_def init_stats_def)
  let ?work = "map (\<lambda>file_info. (file_info, ask file_info)) files"
  let ?st = "set_total sts (length files)"
  from interactive_loop_stats [of cfg ?st fs ?work]
  obtain st2 fs2 where l: "interactive_loop cfg ?st fs ?work = Inr (st2, fs2)"
    "processed (stats st2) = processed (stats ?st) + length ?work"
    "total (stats st2) = total (stats ?st)"
    "renamed (stats st2) + moved (stats ?st) + errors (stats ?st)
         \<le> renamed (stats ?st) + moved (stats st2) + errors (stats st2)"
    by blast
  show "\<exists>st2 fs2. run_interactive_mode cfg init_organizer fs ask = Inr (st2, fs2)
         \<and> total (stats st2) = length files
         \<and> total (stats st2) + errors (stats sts)
             = moved (stats st2) + deleted (stats st2) + skipped (stats st2) + errors (stats st2)
         \<and> renamed (stats st2) + errors (stats sts) \<le> moved (stats st2) + errors (stats st2)
         \<and> (errors (stats st2) = errors (stats sts) \<longrightarrow> renamed (stats st2) \<le> moved (stats st2))
         \<and> (errors (stats sts) = 0 \<longrightarrow>
              total (stats st2)
                = moved (stats st2) + deleted (stats st2) + skipped (stats st2) + errors (stats st2))"
  proof (cases "files = []")
    case True
    with s z show ?thesis by (simp add: run_interactive_mode_def)
  next
    case False
    show ?thesis
      apply (rule exI [of _ st2], rule exI [of _ fs2])
      using s False l z by (simp add: run_interactive_mode_def set_total_def processed_def)
  qed
qed

lemma scan_conflict_eval:
  "scan_files cfg_io init_organizer conflict_fs = Inr ([report_pdf], init_organizer)"
  by (simp add: cfg_io_def conflict_fs_def conflict_nodes_def report_pdf_def scan_defs fs_defs
      state_defs)

theorem counters_after_run_witness:
  "scan_files cfg_io init_organizer conflict_fs = Inr ([report_pdf], init_organizer)
   \<and> errors (stats init_organizer) = 0
   \<and> (\<exists>s st2 fs2. organize_all cfg_io init_organizer conflict_fs = Inr (s, st2, fs2)
         \<and> total s = 1 \<and> total s = moved s + deleted s + skipped s + errors s)
   \<and> (\<exists>st2 fs2. run_interactive_mode cfg_io init_organizer conflict_fs (\<lambda>file_info. Skip)
                    = Inr (st2, fs2)
         \<and> total (stats st2) = 1
         \<and> total (stats st2)
             = moved (stats st2) + deleted (stats st2) + skipped (stats st2) + errors (stats st2))"
proof -
  have z: "errors (stats init_organizer) = 0"
    by (simp add: init_organizer_def init_stats_def)
  show ?thesis
    using z scan_conflict_eval
      counters_after_run [where cfg = cfg_io and fs = conflict_fs and files = "[report_pdf]"
        and sts = init_organizer and ask = "\<lambda>file_info. Skip"]
    by auto
qed

theorem organize_all_dangling_counters:
  "organize_all cfg_io init_organizer dangling_fs
     = Inr (stats dangling_done, dangling_done, dangling_done_fs)
   \<and> total (stats dangling_done) = 1
   \<and> moved (stats dangling_done) = 1
   \<and> deleted (stats dangling_done) = 0
   \<and> skipped (stats dangling_done) = 0
   \<and> errors (stats dangling_done) = 1
   \<and> total (stats dangling_done)
        \<noteq> moved (stats dangling_done) + deleted (stats dangling_done)
           + skipped (stats dangling_done) + errors (stats dangling_done)"
  using organize_dangling_eval by (simp add: dangling_done_def dangling_done_fs_def)



text \<open>
  C10. \<^verbatim>\<open>get_stats\<close> changes no dictionary of the store, the organizer's own
  included; the reference it returns is a new one, to a dictionary with the same
  items. Whatever is done to that dictionary afterwards, the organizer's dictionary
  keeps its items, and a later \<^verbatim>\<open>get_stats\<close> returns them again.
\<close>

theorem get_stats_copy:
  "stats_ref self < length h \<longrightarrow>
     (\<exists>r h'. get_stats h self = (r, h')
        \<and> (\<forall>a. a < length h \<longrightarrow> h' ! a = h ! a)
        \<and> h' ! stats_ref self = h ! stats_ref self
        \<and> r \<noteq> stats_ref self
        \<and> h' ! r = h ! stats_ref self
        \<and> (\<forall>g. mutate h' r g ! stats_ref self = h ! stats_ref self)
        \<and> (\<forall>g r2 h2. get_stats (mutate h' r g) self = (r2, h2) \<longrightarrow>
              h2 ! r2 = h ! stats_ref self \<and> h2 ! stats_ref self = h ! stats_ref self))"
  by (auto simp: get_stats_def dict_copy_def mutate_def nth_append)

theorem get_stats_copy_witness:
  "stats_ref organizer_at_0 < length one_dict_store
   \<and> (\<exists>r h'. get_stats one_dict_store organizer_at_0 = (r, h') \<and> r = 1
        \<and> h' ! 0 = stats_dict init_stats
        \<and> h' ! r = stats_dict init_stats
        \<and> mutate h' r (\<lambda>d. d(''moved'' \<mapsto> 99)) ! 0 = stats_dict init_stats
        \<and> mutate h' r (\<lambda>d. d(''moved'' \<mapsto> 99)) ! r \<noteq> stats_dict init_stats)"
proof -
  have l: "stats_ref organizer_at_0 < length one_dict_store"
    by (simp add: organizer_at_0_def one_dict_store_def)
  have g: "get_stats one_dict_store organizer_at_0
             = (1, [stats_dict init_stats, stats_dict init_stats])"
    by (simp add: get_stats_def dict_copy_def organizer_at_0_def one_dict_store_def)
  have ne: "(stats_dict init_stats)(''moved'' \<mapsto> 99) \<noteq> stats_dict init_stats"
  proof
    assume "(stats_dict init_stats)(''moved'' \<mapsto> 99) = stats_dict init_stats"
    then have "((stats_dict init_stats)(''moved'' \<mapsto> 99)) ''moved'' = stats_dict init_stats ''moved''"
      by simp
    then show False by (simp add: stats_dict_def init_stats_def)
  qed
  show ?thesis
    using l g ne get_stats_copy [of organizer_at_0 one_dict_store]
    by (auto simp: mutate_def organizer_at_0_def one_dict_store_def)
qed




section \<open>The automatic run of the command line\<close>

lemma run_automatic_mode_total:
  assumes "run_automatic_mode cfg st fs confirmed = Inr (st', fs')"
  shows "total (stats st') = total (stats st)"
proof (cases "scan_files cfg st fs")
  case (Inl e)
  with assms show ?thesis by (simp add: run_automatic_mode_def)
next
  case (Inr r)
  obtain files sts where r: "r = (files, sts)" by (cases r)
  from scan_files_result [OF Inr [unfolded r]] have t: "total (stats sts) = total (stats st)" by blast
  show ?thesis
  proof (cases "files = [] \<or> \<not> confirmed")
    case True
    with assms Inr r t show ?thesis by (auto simp: run_automatic_mode_def split: if_splits)
  next
    case False
    with assms Inr r have "move_all cfg sts fs files = Inr (st', fs')"
      by (simp add: run_automatic_mode_def)
    from move_all_stats [OF this] t show ?thesis by simp
  qed
qed

end
